theory Spec2Isabelle
  imports Main "HOL-Library.Word" "HOL-Library.Multiset"
begin

section \<open>Metadata removal for a folder of images: the model of main.py\<close>

text \<open>
  The program is almost entirely calls into libraries and the operating system. Each
  such call is a field of the record \<open>host\<close>: a function from the call's arguments to
  its outcome, which is either an exception or a value. What the program itself
  decides (which exception is caught where, what is returned, what is printed, how many
  workers are asked for) is written out below, line by line.

  An exception is a class and the text \<open>str(e)\<close> gives for it. Every class of the model
  derives from Python's \<open>Exception\<close>, as the errors raised by the library calls do, so
  a handler \<open>except Exception\<close> catches every exception of the model, while
  \<open>except subprocess.CalledProcessError\<close> catches one class only. Asynchronous
  exceptions (\<open>KeyboardInterrupt\<close>, \<open>SystemExit\<close>) are outside the model.
\<close>

subsection \<open>Exceptions, results, the host and the world\<close>

datatype exc_class =
    FileNotFoundError | PermissionError | IsADirectoryError | OSError
  | UnidentifiedImageError | ValueError | MemoryError | NotImplementedError
  | CalledProcessError

datatype exc = Exc exc_class string

fun class_of :: "exc \<Rightarrow> exc_class" where
  "class_of (Exc c m) = c"

fun str_exc :: "exc \<Rightarrow> string" where
  "str_exc (Exc c m) = m"

type_synonym path = string

text \<open>The contents of a file: Isabelle's \<open>char\<close> is a byte.\<close>

type_synonym bytes = "char list"

text \<open>
  The tuple \<open>(success, input_filename, error_message)\<close> that \<open>remove_all_metadata\<close>
  returns; \<open>None\<close> is Python's \<open>None\<close>.
\<close>

type_synonym task_result = "bool \<times> string \<times> string option"

text \<open>
  A Pillow image as far as the program looks at it: \<open>img.mode\<close>, \<open>img.size\<close>, the
  pixel values and the metadata the decoder attached (\<open>img.info\<close>).
\<close>

record pil_image =
  img_mode :: string
  img_size :: "nat \<times> nat"
  pixels :: "nat list"
  info :: "(string \<times> string) list"

record host =
  os_name :: string
    \<comment> \<open>\<open>os.name\<close>\<close>
  ntpath_basename :: "path \<Rightarrow> string"
    \<comment> \<open>\<open>os.path.basename\<close> where \<open>os.name\<close> is not \<open>posix\<close>\<close>
  ntpath_join :: "path \<Rightarrow> string \<Rightarrow> path"
    \<comment> \<open>\<open>os.path.join\<close> where \<open>os.name\<close> is not \<open>posix\<close>\<close>
  open_rb :: "path \<Rightarrow> exc + bytes"
    \<comment> \<open>\<open>open(file, 'rb')\<close> and reading: the bytes of the file\<close>
  Image_open :: "path \<Rightarrow> exc + pil_image"
  getdata :: "pil_image \<Rightarrow> exc + nat list"
    \<comment> \<open>\<open>list(img.getdata())\<close>, which decodes the file\<close>
  Image_new :: "string \<Rightarrow> nat \<times> nat \<Rightarrow> exc + pil_image"
  putdata :: "pil_image \<Rightarrow> nat list \<Rightarrow> exc + pil_image"
  save :: "pil_image \<Rightarrow> path \<Rightarrow> exc option"
    \<comment> \<open>\<open>img.save(path, optimize=True, compress_level=9)\<close>; \<open>None\<close>: no exception\<close>
  piexif_remove :: "path \<Rightarrow> exc option"
  xattr_c :: "path \<Rightarrow> exc option"
    \<comment> \<open>\<open>subprocess.run(["xattr", "-c", path], check=True, capture_output=True)\<close>\<close>
  utime :: "path \<Rightarrow> int \<times> int \<Rightarrow> exc option"
  makedirs :: "path \<Rightarrow> exc option"
    \<comment> \<open>\<open>os.makedirs(path, exist_ok=True)\<close>\<close>
  listdir :: "path \<Rightarrow> exc + string list"
  isfile :: "path \<Rightarrow> bool"
  cpu_count :: "exc + nat"
    \<comment> \<open>\<open>multiprocessing.cpu_count()\<close> raises NotImplementedError when the number is unknown\<close>

text \<open>
  What the program changes: the files it has written (a file is there once \<open>save\<close>
  has returned), the lines it has printed, the
  values that \<open>random.random()\<close> will return next (a value \<open>x\<close> stands for the float
  \<open>x / 2^53\<close>, so that it lies in \<open>[0, 1)\<close>), and the number of worker processes started.
\<close>

record world =
  written :: "path \<rightharpoonup> pil_image"
  stdout :: "string list"
  rng :: "nat \<Rightarrow> 53 word"
  workers :: nat

subsection \<open>os.path\<close>

text \<open>
  \<open>posixpath.basename\<close>: \<open>i = p.rfind('/') + 1; return p[i:]\<close>, the part after the
  last slash. \<open>posixpath.join\<close> for two components.
\<close>

definition posixpath_basename :: "path \<Rightarrow> string" where
  "posixpath_basename p = rev (takeWhile (\<lambda>c. c \<noteq> CHR ''/'') (rev p))"

definition posixpath_join :: "path \<Rightarrow> string \<Rightarrow> path" where
  "posixpath_join a b =
     (if take 1 b = ''/'' then b
      else if a = [] \<or> last a = CHR ''/'' then a @ b
      else a @ ''/'' @ b)"

definition os_path_basename :: "host \<Rightarrow> path \<Rightarrow> string" where
  "os_path_basename h p =
     (if os_name h = ''posix'' then posixpath_basename p else ntpath_basename h p)"

definition os_path_join :: "host \<Rightarrow> path \<Rightarrow> string \<Rightarrow> path" where
  "os_path_join h a b =
     (if os_name h = ''posix'' then posixpath_join a b else ntpath_join h a b)"

subsection \<open>imghdr.what\<close>

text \<open>
  The standard library's \<open>imghdr.what(file)\<close> reads the first 32 bytes of the file and
  returns the name given by the first of its tests that recognises them, or \<open>None\<close>.
  The tests are those of \<open>imghdr.py\<close>, in its order.
\<close>

definition startswith :: "bytes \<Rightarrow> bytes \<Rightarrow> bool" where
  "startswith h p = (take (length p) h = p)"

definition bytes_slice :: "bytes \<Rightarrow> nat \<Rightarrow> nat \<Rightarrow> bytes" where
  "bytes_slice h i j = take (j - i) (drop i h)"

definition whitespace :: "char list" where
  "whitespace = [CHR '' '', CHR 0x09, CHR 0x0A, CHR 0x0D]"

definition test_jpeg :: "bytes \<Rightarrow> string option" where
  "test_jpeg h =
     (if bytes_slice h 6 10 = ''JFIF'' \<or> bytes_slice h 6 10 = ''Exif'' then Some ''jpeg''
      else if bytes_slice h 0 4 = [CHR 0xFF, CHR 0xD8, CHR 0xFF, CHR 0xDB] then Some ''jpeg''
      else None)"

definition test_png :: "bytes \<Rightarrow> string option" where
  "test_png h =
     (if startswith h
           [CHR 0x89, CHR ''P'', CHR ''N'', CHR ''G'', CHR 0x0D, CHR 0x0A, CHR 0x1A, CHR 0x0A]
      then Some ''png'' else None)"

definition test_gif :: "bytes \<Rightarrow> string option" where
  "test_gif h =
     (if bytes_slice h 0 6 = ''GIF87a'' \<or> bytes_slice h 0 6 = ''GIF89a'' then Some ''gif'' else None)"

definition test_tiff :: "bytes \<Rightarrow> string option" where
  "test_tiff h =
     (if bytes_slice h 0 2 = ''MM'' \<or> bytes_slice h 0 2 = ''II'' then Some ''tiff'' else None)"

definition test_rgb :: "bytes \<Rightarrow> string option" where
  "test_rgb h = (if startswith h [CHR 0x01, CHR 0xDA] then Some ''rgb'' else None)"

definition test_pnm :: "string \<Rightarrow> string \<Rightarrow> bytes \<Rightarrow> string option" where
  "test_pnm digits name h =
     (if length h \<ge> 3 \<and> h ! 0 = CHR ''P'' \<and> h ! 1 \<in> set digits \<and> h ! 2 \<in> set whitespace
      then Some name else None)"

definition test_pbm :: "bytes \<Rightarrow> string option" where
  "test_pbm h = test_pnm ''14'' ''pbm'' h"

definition test_pgm :: "bytes \<Rightarrow> string option" where
  "test_pgm h = test_pnm ''25'' ''pgm'' h"

definition test_ppm :: "bytes \<Rightarrow> string option" where
  "test_ppm h = test_pnm ''36'' ''ppm'' h"

definition test_rast :: "bytes \<Rightarrow> string option" where
  "test_rast h =
     (if startswith h [CHR 0x59, CHR 0xA6, CHR 0x6A, CHR 0x95] then Some ''rast'' else None)"

definition test_xbm :: "bytes \<Rightarrow> string option" where
  "test_xbm h = (if startswith h ''#define '' then Some ''xbm'' else None)"

definition test_bmp :: "bytes \<Rightarrow> string option" where
  "test_bmp h = (if startswith h ''BM'' then Some ''bmp'' else None)"

definition test_webp :: "bytes \<Rightarrow> string option" where
  "test_webp h =
     (if startswith h ''RIFF'' \<and> bytes_slice h 8 12 = ''WEBP'' then Some ''webp'' else None)"

definition test_exr :: "bytes \<Rightarrow> string option" where
  "test_exr h =
     (if startswith h [CHR 0x76, CHR 0x2F, CHR 0x31, CHR 0x01] then Some ''exr'' else None)"

definition tests :: "(bytes \<Rightarrow> string option) list" where
  "tests = [test_jpeg, test_png, test_gif, test_tiff, test_rgb, test_pbm, test_pgm,
            test_ppm, test_rast, test_xbm, test_bmp, test_webp, test_exr]"

text \<open>\<open>for tf in tests: res = tf(h, f); if res: return res\<close>, then \<open>return None\<close>.\<close>

fun first_result :: "(bytes \<Rightarrow> string option) list \<Rightarrow> bytes \<Rightarrow> string option" where
  "first_result [] h = None"
| "first_result (tf # tfs) h =
     (case tf h of
        Some res \<Rightarrow> if res \<noteq> [] then Some res else first_result tfs h
      | None \<Rightarrow> first_result tfs h)"

definition imghdr_what :: "host \<Rightarrow> path \<Rightarrow> exc + string option" where
  "imghdr_what host file =
     (case open_rb host file of
        Inl e \<Rightarrow> Inl e
      | Inr content \<Rightarrow> Inr (first_result tests (take 32 content)))"

subsection \<open>random_string\<close>

definition ascii_letters :: string where
  "ascii_letters = ''abcdefghijklmnopqrstuvwxyz'' @ ''ABCDEFGHIJKLMNOPQRSTUVWXYZ''"

definition digits :: string where
  "digits = ''0123456789''"

text \<open>\<open>random.random()\<close>: the next value of the generator, which moves on.\<close>

definition random_random :: "world \<Rightarrow> 53 word \<times> world" where
  "random_random w = (rng w 0, w\<lparr>rng := (\<lambda>i. rng w (Suc i))\<rparr>)"

text \<open>
  \<open>random.choices(population, k=k)\<close> is
  \<open>[population[floor(random() * n)] for i in repeat(None, k)]\<close> with \<open>n = len(population)\<close>.
  The product \<open>random() * n\<close> is a product of two doubles: \<open>n\<close> is converted to a
  double and the exact product is rounded to the nearest double, a tie going to the
  even one. A double has 53 significant bits, so rounding keeps the leading 53 bits of
  a number. All numbers here are multiples of \<open>2^-53\<close> far below the largest double, so
  they are kept as natural numbers, in units of \<open>2^-53\<close> for the product.
\<close>

fun bit_length :: "nat \<Rightarrow> nat" where
  "bit_length n = (if n = 0 then 0 else Suc (bit_length (n div 2)))"

definition two53 :: nat where
  "two53 = 2 ^ 53"

text \<open>
  Rounding a natural number to 53 significant bits: \<open>s\<close> bits are dropped, \<open>r\<close> is
  what they held and \<open>q\<close> what is kept.
\<close>

definition round53 :: "nat \<Rightarrow> nat" where
  "round53 p =
     (if p < two53 then p
      else let s = bit_length p - 53; q = p div 2 ^ s; r = p mod 2 ^ s
           in if 2 ^ (s - 1) < r \<or> (r = 2 ^ (s - 1) \<and> odd q) then (q + 1) * 2 ^ s
              else q * 2 ^ s)"

text \<open>
  \<open>floor(random() * n)\<close> for the float \<open>x / 2^53\<close>: the double \<open>float(n)\<close> is
  \<open>round53 n\<close>, the exact product is \<open>x * round53 n\<close> in units of \<open>2^-53\<close>, the
  double product is its rounding and \<open>floor\<close> drops the fraction.
\<close>

definition floor_times :: "53 word \<Rightarrow> nat \<Rightarrow> nat" where
  "floor_times x n = round53 (unat x * round53 n) div two53"

fun random_choices :: "'a list \<Rightarrow> nat \<Rightarrow> world \<Rightarrow> 'a list \<times> world" where
  "random_choices population 0 w = ([], w)"
| "random_choices population (Suc k) w =
     (let (x, w1) = random_random w;
          c = population ! floor_times x (length population);
          (cs, w2) = random_choices population k w1
      in (c # cs, w2))"

definition random_string :: "nat \<Rightarrow> world \<Rightarrow> string \<times> world" where
  "random_string len w = random_choices (ascii_letters @ digits) len w"

subsection \<open>remove_all_metadata\<close>

text \<open>
  Lines 35 to 39: open the image, read its pixels, make a new image of the same mode and
  size and put the pixels into it. Any of the calls may raise.
\<close>

definition rebuild :: "host \<Rightarrow> path \<Rightarrow> exc + pil_image" where
  "rebuild host input_path =
     (case Image_open host input_path of
        Inl e \<Rightarrow> Inl e
      | Inr img \<Rightarrow>
          (case getdata host img of
             Inl e \<Rightarrow> Inl e
           | Inr data \<Rightarrow>
               (case Image_new host (img_mode img) (img_size img) of
                  Inl e \<Rightarrow> Inl e
                | Inr img_without_metadata \<Rightarrow> putdata host img_without_metadata data)))"

text \<open>
  \<open>try: call except C: pass\<close>: the exception of the call that still escapes, where
  \<open>catches\<close> says which exceptions the handler is for.
\<close>

definition try_pass :: "(exc \<Rightarrow> bool) \<Rightarrow> exc option \<Rightarrow> exc option" where
  "try_pass catches r =
     (case r of None \<Rightarrow> None | Some e \<Rightarrow> if catches e then None else Some e)"

text \<open>Lines 44 to 63, the three clean-up steps; the result is the exception that escapes them.\<close>

definition cleanup :: "host \<Rightarrow> string \<Rightarrow> path \<Rightarrow> exc option" where
  "cleanup host image_type output_path =
     (case (if image_type = ''jpg'' \<or> image_type = ''jpeg''
            then try_pass (\<lambda>e. True) (piexif_remove host output_path) else None) of
        Some e \<Rightarrow> Some e
      | None \<Rightarrow>
          (case (if os_name host = ''posix''
                 then try_pass (\<lambda>e. class_of e = CalledProcessError) (xattr_c host output_path)
                 else None) of
             Some e \<Rightarrow> Some e
           | None \<Rightarrow> try_pass (\<lambda>e. True) (utime host output_path (0, 0))))"

text \<open>The body of the \<open>try\<close> block, lines 25 to 65: it returns a result or raises.\<close>

definition remove_all_metadata_try ::
  "host \<Rightarrow> path \<times> path \<Rightarrow> world \<Rightarrow> (exc + task_result) \<times> world" where
  "remove_all_metadata_try host input_tuple w =
     (let (input_path, output_folder) = input_tuple in
      case imghdr_what host input_path of
        Inl e \<Rightarrow> (Inl e, w)
      | Inr None \<Rightarrow>
          (Inr (False, os_path_basename host input_path,
                Some ''Unsupported or invalid image file''), w)
      | Inr (Some image_type) \<Rightarrow>
          if image_type = [] then
            (Inr (False, os_path_basename host input_path,
                  Some ''Unsupported or invalid image file''), w)
          else
            let (name, w1) = random_string 20 w;
                output_filename = name @ ''.'' @ image_type;
                output_path = os_path_join host output_folder output_filename
            in (case rebuild host input_path of
                  Inl e \<Rightarrow> (Inl e, w1)
                | Inr img_without_metadata \<Rightarrow>
                    (case save host img_without_metadata output_path of
                       Some e \<Rightarrow> (Inl e, w1)
                     | None \<Rightarrow>
                         let w2 = w1\<lparr>written := (written w1)(output_path \<mapsto> img_without_metadata)\<rparr>
                         in (case cleanup host image_type output_path of
                               Some e \<Rightarrow> (Inl e, w2)
                             | None \<Rightarrow>
                                 (Inr (True, os_path_basename host input_path, None), w2)))))"

text \<open>
  The function with its handler, line 67: \<open>except Exception as e\<close> turns whatever the
  body raises into a failed result that carries \<open>str(e)\<close>.
\<close>

definition remove_all_metadata ::
  "host \<Rightarrow> path \<times> path \<Rightarrow> world \<Rightarrow> (exc + task_result) \<times> world" where
  "remove_all_metadata host input_tuple w =
     (let (input_path, output_folder) = input_tuple in
      case remove_all_metadata_try host input_tuple w of
        (Inl e, w') \<Rightarrow> (Inr (False, os_path_basename host input_path, Some (str_exc e)), w')
      | (Inr r, w') \<Rightarrow> (Inr r, w'))"

subsection \<open>process_folder\<close>

text \<open>
  Lines 76 to 90, the loop over the directory entries, with the list \<open>image_files\<close>
  built so far. An entry that is not a file is skipped; so is one for which
  \<open>imghdr.what\<close> raises (\<open>except Exception: continue\<close>) or returns nothing.
\<close>

fun collect_image_files ::
  "host \<Rightarrow> path \<Rightarrow> path \<Rightarrow> (path \<times> path) list \<Rightarrow> string list \<Rightarrow> (path \<times> path) list" where
  "collect_image_files host input_folder output_folder image_files [] = image_files"
| "collect_image_files host input_folder output_folder image_files (filename # rest) =
     (let input_path = os_path_join host input_folder filename in
      if \<not> isfile host input_path then
        collect_image_files host input_folder output_folder image_files rest
      else
        (case imghdr_what host input_path of
           Inl e \<Rightarrow> collect_image_files host input_folder output_folder image_files rest
         | Inr None \<Rightarrow> collect_image_files host input_folder output_folder image_files rest
         | Inr (Some image_type) \<Rightarrow>
             if image_type \<noteq> [] then
               collect_image_files host input_folder output_folder
                 (image_files @ [(input_path, output_folder)]) rest
             else collect_image_files host input_folder output_folder image_files rest))"

text \<open>
  \<open>Pool(processes=n)\<close>: the constructor of \<open>multiprocessing.Pool\<close> raises ValueError
  when \<open>n < 1\<close>, and starts \<open>n\<close> worker processes otherwise.
\<close>

definition Pool :: "nat \<Rightarrow> world \<Rightarrow> (exc + unit) \<times> world" where
  "Pool processes w =
     (if processes < 1 then (Inl (Exc ValueError ''Number of processes must be at least 1''), w)
      else (Inr (), w\<lparr>workers := workers w + processes\<rparr>))"

text \<open>
  \<open>pool.map(remove_all_metadata, image_files)\<close>: the list of the results, in the order
  of the tasks; an exception of a task is raised again by \<open>map\<close>. The workers share no
  state but the output folder, and the tasks are run here one after the other.
\<close>

fun pool_map ::
  "host \<Rightarrow> (path \<times> path) list \<Rightarrow> world \<Rightarrow> (exc + task_result list) \<times> world" where
  "pool_map host [] w = (Inr [], w)"
| "pool_map host (t # ts) w =
     (case remove_all_metadata host t w of
        (Inl e, w1) \<Rightarrow> (Inl e, w1)
      | (Inr r, w1) \<Rightarrow>
          (case pool_map host ts w1 of
             (Inl e, w2) \<Rightarrow> (Inl e, w2)
           | (Inr rs, w2) \<Rightarrow> (Inr (r # rs), w2)))"

text \<open>\<open>str(n)\<close> for a number that is not negative.\<close>

definition digit_char :: "nat \<Rightarrow> char" where
  "digit_char d = digits ! d"

function str_nat :: "nat \<Rightarrow> string" where
  "str_nat n = (if n < 10 then [digit_char n] else str_nat (n div 10) @ [digit_char (n mod 10)])"
  by pat_completeness auto
termination
  by (relation "measure (\<lambda>n. n)") auto

text \<open>An f-string field: \<open>None\<close> is printed as \<open>None\<close>.\<close>

definition str_opt :: "string option \<Rightarrow> string" where
  "str_opt x = (case x of None \<Rightarrow> ''None'' | Some s \<Rightarrow> s)"

text \<open>
  The number that a printed line shows, to say what a line of the summary reports: the
  value of a non-empty string of decimal digits, as Python's \<open>int(s)\<close> reads it.
\<close>

fun read_digits :: "nat \<Rightarrow> string \<Rightarrow> nat option" where
  "read_digits acc [] = Some acc"
| "read_digits acc (c # cs) =
     (if c \<in> set digits then read_digits (10 * acc + (of_char c - 48)) cs else None)"

definition read_nat :: "string \<Rightarrow> nat option" where
  "read_nat s = (if s = [] then None else read_digits 0 s)"

definition print :: "string \<Rightarrow> world \<Rightarrow> world" where
  "print line w = w\<lparr>stdout := stdout w @ [line]\<rparr>"

definition successful :: "task_result list \<Rightarrow> task_result list" where
  "successful results = filter (\<lambda>r. fst r) results"

definition failed :: "task_result list \<Rightarrow> task_result list" where
  "failed results = filter (\<lambda>r. \<not> fst r) results"

text \<open>Lines 111 and 112: \<open>for _, filename, error in failed: print(...)\<close>.\<close>

fun print_failed :: "task_result list \<Rightarrow> world \<Rightarrow> world" where
  "print_failed [] w = w"
| "print_failed ((_, filename, error) # rest) w =
     print_failed rest (print (''- '' @ filename @ '': '' @ str_opt error) w)"

text \<open>Lines 100 to 112.\<close>

definition print_results :: "task_result list \<Rightarrow> world \<Rightarrow> world" where
  "print_results results w =
     (let w1 = print (CHR 0x0A # ''Processing Summary:'') w;
          w2 = print (''Total images processed: '' @ str_nat (length results)) w1;
          w3 = print (''Successful: '' @ str_nat (length (successful results))) w2;
          w4 = print (''Failed: '' @ str_nat (length (failed results))) w3
      in if failed results \<noteq> []
         then print_failed (failed results) (print (CHR 0x0A # ''Failed Files:'') w4)
         else w4)"

definition process_folder :: "host \<Rightarrow> path \<Rightarrow> path \<Rightarrow> world \<Rightarrow> (exc + unit) \<times> world" where
  "process_folder host input_folder output_folder w =
     (case makedirs host output_folder of
        Some e \<Rightarrow> (Inl e, w)
      | None \<Rightarrow>
          (case listdir host input_folder of
             Inl e \<Rightarrow> (Inl e, w)
           | Inr entries \<Rightarrow>
               let image_files = collect_image_files host input_folder output_folder [] entries
               in (case cpu_count host of
                     Inl e \<Rightarrow> (Inl e, w)
                   | Inr cpus \<Rightarrow>
                       let num_processes = min cpus (length image_files)
                       in (case Pool num_processes w of
                             (Inl e, w1) \<Rightarrow> (Inl e, w1)
                           | (Inr _, w1) \<Rightarrow>
                               (case pool_map host image_files w1 of
                                  (Inl e, w2) \<Rightarrow> (Inl e, w2)
                                | (Inr results, w2) \<Rightarrow> (Inr (), print_results results w2))))))"

definition main :: "host \<Rightarrow> world \<Rightarrow> (exc + unit) \<times> world" where
  "main host w =
     (let input_folder = ''input'';
          output_folder = ''output'';
          w1 = print (''Starting comprehensive metadata removal from: '' @ input_folder) w
      in case process_folder host input_folder output_folder w1 of
           (Inl e, w2) \<Rightarrow> (Inl e, w2)
         | (Inr _, w2) \<Rightarrow>
             (Inr (), print (''Completed. Cleaned images saved to: '' @ output_folder) w2))"

subsection \<open>A host and a folder to run the program on\<close>

text \<open>
  A POSIX host on which every call succeeds. The folder \<open>input\<close> holds a PNG file, a
  text file, a directory, a JPEG file and an empty file.
\<close>

definition png_file :: bytes where
  "png_file = [CHR 0x89, CHR ''P'', CHR ''N'', CHR ''G'', CHR 0x0D, CHR 0x0A, CHR 0x1A, CHR 0x0A,
               CHR 0x00, CHR 0x00, CHR 0x00, CHR 0x0D] @ ''IHDR''"

definition jpeg_file :: bytes where
  "jpeg_file = [CHR 0xFF, CHR 0xD8, CHR 0xFF, CHR 0xE0, CHR 0x00, CHR 0x10] @ ''JFIF''"

definition photo :: pil_image where
  "photo = \<lparr>img_mode = ''L'', img_size = (2, 1), pixels = [7, 9],
            info = [(''exif'', ''GPS 48.1 11.5'')]\<rparr>"

definition clean_photo :: pil_image where
  "clean_photo = \<lparr>img_mode = ''L'', img_size = (2, 1), pixels = [7, 9], info = []\<rparr>"

definition posix_host :: host where
  "posix_host =
     \<lparr>os_name = ''posix'',
      ntpath_basename = (\<lambda>p. p),
      ntpath_join = (\<lambda>a b. a @ b),
      open_rb = (\<lambda>p. if p = ''input/a.png'' then Inr png_file
                     else if p = ''input/b.jpg'' then Inr jpeg_file
                     else if p = ''input/notes.txt'' then Inr ''call me at nine''
                     else if p = ''input/empty.png'' then Inr []
                     else Inl (Exc FileNotFoundError ''[Errno 2] No such file or directory'')),
      Image_open = (\<lambda>p. if p = ''input/a.png'' \<or> p = ''input/b.jpg'' then Inr photo
                        else Inl (Exc UnidentifiedImageError ''cannot identify image file'')),
      getdata = (\<lambda>img. Inr (pixels img)),
      Image_new = (\<lambda>m s. Inr \<lparr>img_mode = m, img_size = s, pixels = replicate (fst s * snd s) 0,
                                info = []\<rparr>),
      putdata = (\<lambda>img data. Inr (img\<lparr>pixels := data\<rparr>)),
      save = (\<lambda>img p. None),
      piexif_remove = (\<lambda>p. None),
      xattr_c = (\<lambda>p. None),
      utime = (\<lambda>p t. None),
      makedirs = (\<lambda>p. None),
      listdir = (\<lambda>p. if p = ''input''
                     then Inr [''a.png'', ''notes.txt'', ''sub'', ''b.jpg'', ''empty.png'']
                     else Inl (Exc FileNotFoundError ''[Errno 2] No such file or directory'')),
      isfile = (\<lambda>p. p \<noteq> ''input/sub''),
      cpu_count = Inr 4\<rparr>"

definition world0 :: world where
  "world0 = \<lparr>written = Map.empty, stdout = [], rng = (\<lambda>i. 0), workers = 0\<rparr>"

text \<open>The same host without the \<open>xattr\<close> program, as on Linux: \<open>subprocess.run\<close> raises.\<close>

definition xattr_not_found :: exc where
  "xattr_not_found =
     Exc FileNotFoundError
       (''[Errno 2] No such file or directory: '' @ [CHR 0x27] @ ''xattr'' @ [CHR 0x27])"

definition linux_host :: host where
  "linux_host = posix_host\<lparr>xattr_c := (\<lambda>p. Some xattr_not_found)\<rparr>"

text \<open>The same host with too little memory for the list of pixels: \<open>MemoryError()\<close>.\<close>

definition small_host :: host where
  "small_host = posix_host\<lparr>getdata := (\<lambda>img. Inl (Exc MemoryError []))\<rparr>"

text \<open>The same host with an output folder that cannot be written to.\<close>

definition readonly_host :: host where
  "readonly_host =
     posix_host\<lparr>save := (\<lambda>img p. Some (Exc PermissionError ''[Errno 13] Permission denied''))\<rparr>"

text \<open>The same host with an empty input folder.\<close>

definition empty_folder_host :: host where
  "empty_folder_host = posix_host\<lparr>listdir := (\<lambda>p. Inr [])\<rparr>"

text \<open>
  A world in which the generator returns 5665818886046753 / 2^53 for ever, so that the
  name drawn is twenty times the letter N, and in which that name is already taken.
\<close>

definition taken_world :: world where
  "taken_world =
     \<lparr>written = [''output/NNNNNNNNNNNNNNNNNNNN.png'' \<mapsto> photo], stdout = [],
      rng = (\<lambda>i. 5665818886046753), workers = 0\<rparr>"

text \<open>Twelve results, one of them a failure.\<close>

definition example_results :: "task_result list" where
  "example_results =
     replicate 11 (True, ''a.png'', None) @
     [(False, ''big.png'', Some ''cannot identify image file'')]"

section \<open>Properties\<close>

subsection \<open>The random name\<close>

declare bit_length.simps [simp del]

lemma bit_length_bounds:
  "0 < n \<Longrightarrow> 2 ^ (bit_length n - 1) \<le> n \<and> n < 2 ^ bit_length n"
proof (induction n rule: bit_length.induct)
  case (1 n)
  show ?case
  proof (cases "n div 2 = 0")
    case True
    with "1.prems" have n: "n = Suc 0" by (simp add: div_eq_0_iff)
    have "bit_length (Suc 0) = Suc 0"
      by (simp add: bit_length.simps [of "Suc 0"] bit_length.simps [of 0])
    with n show ?thesis
      by simp
  next
    case False
    then have pos: "0 < n div 2" by simp
    with "1.IH" "1.prems" have
      lo: "2 ^ (bit_length (n div 2) - 1) \<le> n div 2" and hi: "n div 2 < 2 ^ bit_length (n div 2)"
      by simp_all
    have bl: "bit_length n = Suc (bit_length (n div 2))"
      using "1.prems" by (simp add: bit_length.simps [of n])
    have ge1: "1 \<le> bit_length (n div 2)"
      using pos by (simp add: bit_length.simps [of "n div 2"])
    then have "(2::nat) ^ bit_length (n div 2) = 2 * 2 ^ (bit_length (n div 2) - 1)"
      by (cases "bit_length (n div 2)") simp_all
    with lo have "2 ^ bit_length (n div 2) \<le> 2 * (n div 2)" by simp
    then have "2 ^ (bit_length n - 1) \<le> n" using bl by simp
    moreover have "n < 2 * (n div 2) + 2" by presburger
    with hi have "n < 2 ^ bit_length n" using bl by simp
    ultimately show ?thesis by simp
  qed
qed

lemma round53_small: "p < two53 \<Longrightarrow> round53 p = p"
  by (simp add: round53_def)

lemma round53_below:
  assumes "0 < m" and "p + m \<le> m * two53"
  shows "round53 p < m * two53"
proof (cases "p < two53")
  case True
  with assms show ?thesis by (simp add: round53_def)
next
  case False
  define s where "s = bit_length p - 53"
  define q where "q = p div 2 ^ s"
  define r where "r = p mod 2 ^ s"
  have ppos: "0 < p" using False by (simp add: two53_def)
  have lo: "2 ^ (bit_length p - 1) \<le> p" and hi: "p < 2 ^ bit_length p"
    using bit_length_bounds [OF ppos] by simp_all
  have "(2::nat) ^ 53 < 2 ^ bit_length p"
    using False hi unfolding two53_def by linarith
  then have b54: "53 < bit_length p"
    by (rule power_less_imp_less_exp [rotated]) simp
  then have s1: "1 \<le> s" and bs: "bit_length p - 1 = (s - 1) + 53" by (simp_all add: s_def)
  have "(2::nat) ^ (s - 1) * two53 \<le> p"
    using lo unfolding bs two53_def by (simp only: power_add)
  also have "p < m * two53" using assms by simp
  finally have half: "2 ^ (s - 1) < m" by simp
  have two: "(2::nat) ^ s = 2 * 2 ^ (s - 1)"
    using s1 by (cases s) simp_all
  have pq: "p = q * 2 ^ s + r"
    unfolding q_def r_def by (rule div_mult_mod_eq [symmetric])
  have r53: "round53 p =
      (if 2 ^ (s - 1) < r \<or> (r = 2 ^ (s - 1) \<and> odd q) then (q + 1) * 2 ^ s else q * 2 ^ s)"
    using False by (simp only: round53_def Let_def s_def q_def r_def if_False)
  have "round53 p \<le> p + 2 ^ (s - 1)"
  proof (cases "2 ^ (s - 1) < r \<or> (r = 2 ^ (s - 1) \<and> odd q)")
    case True
    then have "2 ^ (s - 1) \<le> r" by auto
    then have "(q + 1) * 2 ^ s \<le> p + 2 ^ (s - 1)"
      unfolding pq two by (simp add: algebra_simps)
    with True r53 show ?thesis by simp
  next
    case False
    have "q * 2 ^ s \<le> p + 2 ^ (s - 1)"
      unfolding pq by simp
    with False r53 show ?thesis by auto
  qed
  also have "\<dots> < p + m" using half by simp
  finally show ?thesis using assms by simp
qed

lemma floor_times_less:
  assumes "0 < n" and "n < two53"
  shows "floor_times x n < n"
proof -
  have "unat x < two53"
    using unsigned_less [of x] by (simp add: two53_def)
  then have "unat x + 1 \<le> two53" by simp
  then have "(unat x + 1) * n \<le> two53 * n"
    by (rule mult_le_mono1)
  then have "unat x * n + n \<le> n * two53"
    by (simp add: algebra_simps)
  from round53_below [OF assms(1) this] show ?thesis
    unfolding floor_times_def round53_small [OF assms(2)]
    by (simp add: less_mult_imp_div_less)
qed

lemma bit_length_eq:
  assumes "2 ^ k \<le> n" and "n < 2 ^ Suc k"
  shows "bit_length n = Suc k"
proof -
  have pos: "0 < n"
    using assms(1) by (cases n) simp_all
  have lo: "2 ^ (bit_length n - 1) \<le> n" and hi: "n < 2 ^ bit_length n"
    using bit_length_bounds [OF pos] by simp_all
  have "(2::nat) ^ k < 2 ^ bit_length n"
    using assms(1) hi by linarith
  then have "k < bit_length n"
    by (rule power_less_imp_less_exp [rotated]) simp
  moreover have "(2::nat) ^ (bit_length n - 1) < 2 ^ Suc k"
    using lo assms(2) by linarith
  then have "bit_length n - 1 < Suc k"
    by (rule power_less_imp_less_exp [rotated]) simp
  ultimately show ?thesis
    by simp
qed

text \<open>
  The rounding matters: for this value of the generator the exact product is just below
  39, and the double product is 39.
\<close>

lemma rounding_example: "floor_times 5665818886046753 62 = 39"
proof -
  have "bit_length 351280770934898686 = Suc 58"
    by (rule bit_length_eq) simp_all
  then show ?thesis
    by (simp add: floor_times_def round53_def Let_def two53_def)
qed

lemma random_choices_length: "length (fst (random_choices population k w)) = k"
  by (induction k arbitrary: w) (simp_all add: case_prod_beta Let_def)

lemma random_choices_set:
  "population \<noteq> [] \<Longrightarrow> length population < two53 \<Longrightarrow>
     set (fst (random_choices population k w)) \<subseteq> set population"
  by (induction k arbitrary: w) (simp_all add: case_prod_beta Let_def floor_times_less)

lemma random_random_keeps:
  "written (snd (random_random w)) = written w"
  "stdout (snd (random_random w)) = stdout w"
  "workers (snd (random_random w)) = workers w"
  by (simp_all add: random_random_def)

lemma random_choices_keeps:
  "written (snd (random_choices population k w)) = written w"
  "stdout (snd (random_choices population k w)) = stdout w"
  "workers (snd (random_choices population k w)) = workers w"
  by (induction k arbitrary: w) (simp_all add: case_prod_beta Let_def random_random_keeps)

lemma random_string_length: "length (fst (random_string len w)) = len"
  by (simp add: random_string_def random_choices_length)

lemma random_string_chars: "set (fst (random_string len w)) \<subseteq> set (ascii_letters @ digits)"
  unfolding random_string_def
  by (rule random_choices_set) (simp_all add: digits_def ascii_letters_def two53_def)

lemma random_string_keeps:
  "written (snd (random_string len w)) = written w"
  "stdout (snd (random_string len w)) = stdout w"
  "workers (snd (random_string len w)) = workers w"
  by (simp_all add: random_string_def random_choices_keeps)

subsection \<open>The clean-up steps\<close>

lemma try_pass_Exception: "try_pass (\<lambda>e. True) r = None"
  by (simp add: try_pass_def split: option.splits)

text \<open>
  The only exception that leaves the clean-up steps is one of the \<open>xattr\<close> call, on a
  POSIX host, that is not a CalledProcessError.
\<close>

lemma cleanup_escapes:
  assumes "cleanup host image_type output_path = Some e"
  shows "os_name host = ''posix'' \<and> xattr_c host output_path = Some e \<and>
         class_of e \<noteq> CalledProcessError"
  using assms
  by (auto simp: cleanup_def try_pass_Exception try_pass_def split: if_splits option.splits)

lemma cleanup_swallows:
  assumes "os_name host \<noteq> ''posix'' \<or> xattr_c host output_path = None \<or>
           (\<exists>m. xattr_c host output_path = Some (Exc CalledProcessError m))"
  shows "cleanup host image_type output_path = None"
  using assms
  by (auto simp: cleanup_def try_pass_Exception try_pass_def split: if_splits option.splits)

lemma cleanup_escapes_iff:
  "cleanup host image_type output_path = Some e \<longleftrightarrow>
     os_name host = ''posix'' \<and> xattr_c host output_path = Some e \<and>
     class_of e \<noteq> CalledProcessError"
  by (auto simp: cleanup_def try_pass_Exception try_pass_def split: if_splits option.splits)

subsection \<open>The paths through remove_all_metadata\<close>

lemma remove_all_metadata_try_keeps:
  "stdout (snd (remove_all_metadata_try host t w)) = stdout w"
  "workers (snd (remove_all_metadata_try host t w)) = workers w"
  by (auto simp: remove_all_metadata_try_def Let_def case_prod_beta random_string_keeps
      split: sum.splits option.splits)

lemma remove_all_metadata_try_result:
  assumes "remove_all_metadata_try host (input_path, output_folder) w = (Inr r, w')"
  shows "r = (True, os_path_basename host input_path, None) \<or>
         (r = (False, os_path_basename host input_path, Some ''Unsupported or invalid image file'')
          \<and> w' = w)"
  using assms
  by (auto simp: remove_all_metadata_try_def Let_def case_prod_beta
      split: sum.splits option.splits if_splits)

lemma remove_all_metadata_returns:
  "\<exists>ok error w'. remove_all_metadata host (input_path, output_folder) w =
       (Inr (ok, os_path_basename host input_path, error), w') \<and>
     stdout w' = stdout w \<and> workers w' = workers w"
proof (cases "remove_all_metadata_try host (input_path, output_folder) w")
  case (Pair res w')
  have keeps: "stdout w' = stdout w \<and> workers w' = workers w"
    using remove_all_metadata_try_keeps [of host "(input_path, output_folder)" w] Pair by simp
  show ?thesis
  proof (cases res)
    case (Inl e)
    with Pair keeps show ?thesis by (auto simp: remove_all_metadata_def)
  next
    case (Inr r)
    with Pair remove_all_metadata_try_result [of host input_path output_folder w r w'] keeps
    show ?thesis by (auto simp: remove_all_metadata_def)
  qed
qed

text \<open>
  Once the file is classified, the result is decided by the first call that raises:
  rebuilding the image, saving it, or the clean-up.
\<close>

lemma remove_all_metadata_paths:
  assumes "imghdr_what host input_path = Inr (Some image_type)"
    and "image_type \<noteq> []"
    and "random_string 20 w = (name, w1)"
    and "output_path = os_path_join host output_folder (name @ ''.'' @ image_type)"
  shows "rebuild host input_path = Inl e \<Longrightarrow>
           remove_all_metadata host (input_path, output_folder) w =
             (Inr (False, os_path_basename host input_path, Some (str_exc e)), w1)"
    and "rebuild host input_path = Inr img \<Longrightarrow> save host img output_path = Some e \<Longrightarrow>
           remove_all_metadata host (input_path, output_folder) w =
             (Inr (False, os_path_basename host input_path, Some (str_exc e)), w1)"
    and "rebuild host input_path = Inr img \<Longrightarrow> save host img output_path = None \<Longrightarrow>
         cleanup host image_type output_path = Some e \<Longrightarrow>
           remove_all_metadata host (input_path, output_folder) w =
             (Inr (False, os_path_basename host input_path, Some (str_exc e)),
              w1\<lparr>written := (written w1)(output_path \<mapsto> img)\<rparr>)"
    and "rebuild host input_path = Inr img \<Longrightarrow> save host img output_path = None \<Longrightarrow>
         cleanup host image_type output_path = None \<Longrightarrow>
           remove_all_metadata host (input_path, output_folder) w =
             (Inr (True, os_path_basename host input_path, None),
              w1\<lparr>written := (written w1)(output_path \<mapsto> img)\<rparr>)"
  using assms by (simp_all add: remove_all_metadata_def remove_all_metadata_try_def)

text \<open>Rebuilding raises exactly when one of its four calls does.\<close>

lemma rebuild_raises_iff:
  "rebuild host input_path = Inl e \<longleftrightarrow>
     Image_open host input_path = Inl e \<or>
     (\<exists>img. Image_open host input_path = Inr img \<and>
        (getdata host img = Inl e \<or>
         (\<exists>data. getdata host img = Inr data \<and>
            (Image_new host (img_mode img) (img_size img) = Inl e \<or>
             (\<exists>blank. Image_new host (img_mode img) (img_size img) = Inr blank \<and>
                putdata host blank data = Inl e)))))"
  by (auto simp: rebuild_def split: sum.splits)

lemma first_result_empty: "first_result tests [] = None"
  by (simp add: tests_def test_jpeg_def test_png_def test_gif_def test_tiff_def test_rgb_def
      test_pbm_def test_pgm_def test_ppm_def test_pnm_def test_rast_def test_xbm_def test_bmp_def
      test_webp_def test_exr_def startswith_def bytes_slice_def)

subsection \<open>The steps of process_folder\<close>

lemma collect_image_files_filter:
  "collect_image_files host input_folder output_folder image_files entries =
     image_files @
     map (\<lambda>filename. (os_path_join host input_folder filename, output_folder))
       (filter (\<lambda>filename. isfile host (os_path_join host input_folder filename) \<and>
                  (\<exists>image_type. imghdr_what host (os_path_join host input_folder filename) =
                       Inr (Some image_type) \<and> image_type \<noteq> []))
          entries)"
  by (induction entries arbitrary: image_files)
    (auto simp: Let_def split: sum.splits option.splits)

lemma pool_map_results:
  "\<exists>results w'. pool_map host image_files w = (Inr results, w') \<and>
     length results = length image_files \<and>
     map (\<lambda>r. fst (snd r)) results = map (\<lambda>t. os_path_basename host (fst t)) image_files \<and>
     stdout w' = stdout w \<and> workers w' = workers w"
proof (induction image_files arbitrary: w)
  case Nil
  show ?case by simp
next
  case (Cons t ts)
  obtain input_path output_folder where t: "t = (input_path, output_folder)"
    by (cases t)
  obtain ok error w1 where r: "remove_all_metadata host t w =
      (Inr (ok, os_path_basename host input_path, error), w1)"
    and k1: "stdout w1 = stdout w" "workers w1 = workers w"
    using remove_all_metadata_returns [of host input_path output_folder w] t by auto
  obtain rs w2 where rs: "pool_map host ts w1 = (Inr rs, w2)"
    and l: "length rs = length ts"
    and m: "map (\<lambda>r. fst (snd r)) rs = map (\<lambda>t. os_path_basename host (fst t)) ts"
    and k2: "stdout w2 = stdout w1" "workers w2 = workers w1"
    using Cons.IH [of w1] by auto
  show ?case
    using t r rs l m k1 k2 by simp
qed

text \<open>
  The run of \<open>pool.map\<close> as a sequence of worlds: task \<open>i\<close> is run once, in the world
  that task \<open>i - 1\<close> left, and result \<open>i\<close> is what it returned.
\<close>

lemma pool_map_trace:
  "\<exists>results ws.
     pool_map host image_files w = (Inr results, last ws) \<and>
     length results = length image_files \<and> length ws = Suc (length image_files) \<and>
     ws ! 0 = w \<and>
     (\<forall>i < length image_files.
        remove_all_metadata host (image_files ! i) (ws ! i) = (Inr (results ! i), ws ! Suc i))"
proof (induction image_files arbitrary: w)
  case Nil
  show ?case
    by (rule exI [of _ "[]"], rule exI [of _ "[w]"]) simp
next
  case (Cons t ts)
  obtain input_path output_folder where t: "t = (input_path, output_folder)"
    by (cases t)
  obtain r w1 where r: "remove_all_metadata host t w = (Inr r, w1)"
    using remove_all_metadata_returns [of host input_path output_folder w] t by auto
  obtain rs ws where rs: "pool_map host ts w1 = (Inr rs, last ws)"
    and len: "length rs = length ts" "length ws = Suc (length ts)"
    and first: "ws ! 0 = w1"
    and steps: "\<forall>i < length ts.
        remove_all_metadata host (ts ! i) (ws ! i) = (Inr (rs ! i), ws ! Suc i)"
    using Cons.IH [of w1] by blast
  have ne: "ws \<noteq> []"
    using len(2) by auto
  have "\<forall>i < length (t # ts).
      remove_all_metadata host ((t # ts) ! i) ((w # ws) ! i) = (Inr ((r # rs) ! i), (w # ws) ! Suc i)"
  proof (intro allI impI)
    fix i
    assume "i < length (t # ts)"
    then show "remove_all_metadata host ((t # ts) ! i) ((w # ws) ! i) =
        (Inr ((r # rs) ! i), (w # ws) ! Suc i)"
      using r first steps by (cases i) simp_all
  qed
  moreover have "pool_map host (t # ts) w = (Inr (r # rs), last (w # ws))"
    using r rs ne by simp
  ultimately show ?case
    using len by (intro exI [of _ "r # rs"] exI [of _ "w # ws"]) simp
qed

text \<open>Only \<open>process_folder\<close> itself looks at the directory listing.\<close>

lemma listdir_irrelevant:
  "os_path_join (host\<lparr>listdir := g\<rparr>) = os_path_join host"
  "os_path_basename (host\<lparr>listdir := g\<rparr>) = os_path_basename host"
  "imghdr_what (host\<lparr>listdir := g\<rparr>) = imghdr_what host"
  "rebuild (host\<lparr>listdir := g\<rparr>) = rebuild host"
  "cleanup (host\<lparr>listdir := g\<rparr>) = cleanup host"
  by (auto simp: fun_eq_iff os_path_join_def os_path_basename_def imghdr_what_def rebuild_def
      cleanup_def split: sum.splits option.splits)

lemma remove_all_metadata_listdir:
  "remove_all_metadata (host\<lparr>listdir := g\<rparr>) t w = remove_all_metadata host t w"
  by (simp add: remove_all_metadata_def remove_all_metadata_try_def listdir_irrelevant
      cong: sum.case_cong option.case_cong prod.case_cong if_cong)

lemma pool_map_listdir: "pool_map (host\<lparr>listdir := g\<rparr>) ts w = pool_map host ts w"
  by (induction ts arbitrary: w)
    (simp_all add: remove_all_metadata_listdir cong: sum.case_cong prod.case_cong)

lemma collect_image_files_listdir:
  "collect_image_files (host\<lparr>listdir := g\<rparr>) input_folder output_folder image_files entries =
   collect_image_files host input_folder output_folder image_files entries"
  by (induction entries arbitrary: image_files)
    (simp_all add: listdir_irrelevant cong: sum.case_cong option.case_cong if_cong)

lemma print_keeps:
  "written (print line w) = written w"
  "workers (print line w) = workers w"
  "stdout (print line w) = stdout w @ [line]"
  by (simp_all add: print_def)

lemma print_failed_stdout:
  "stdout (print_failed rs w) =
     stdout w @ map (\<lambda>(_, filename, error). ''- '' @ filename @ '': '' @ str_opt error) rs"
  by (induction rs w rule: print_failed.induct) (simp_all add: print_keeps)

lemma print_failed_keeps:
  "written (print_failed rs w) = written w"
  "workers (print_failed rs w) = workers w"
  by (induction rs w rule: print_failed.induct) (simp_all add: print_keeps)

lemma print_results_stdout:
  "stdout (print_results results w) =
     stdout w @
     [CHR 0x0A # ''Processing Summary:'',
      ''Total images processed: '' @ str_nat (length results),
      ''Successful: '' @ str_nat (length (successful results)),
      ''Failed: '' @ str_nat (length (failed results))] @
     (if failed results = [] then []
      else (CHR 0x0A # ''Failed Files:'') #
           map (\<lambda>(_, filename, error). ''- '' @ filename @ '': '' @ str_opt error)
             (failed results))"
  by (simp add: print_results_def Let_def print_failed_stdout print_keeps)

lemma print_results_keeps:
  "written (print_results results w) = written w"
  "workers (print_results results w) = workers w"
  by (simp_all add: print_results_def Let_def print_failed_keeps print_keeps)

declare str_nat.simps [simp del]

lemma str_nat_digit: "n < 10 \<Longrightarrow> str_nat n = [digit_char n]"
  by (subst str_nat.simps) simp

lemma str_nat_more: "\<not> n < 10 \<Longrightarrow> str_nat n = str_nat (n div 10) @ [digit_char (n mod 10)]"
  by (subst str_nat.simps) simp

lemma digit_char_digit:
  assumes "d < 10"
  shows "digit_char d \<in> set digits \<and> of_char (digit_char d) - 48 = d"
proof -
  from assms have "d = 0 \<or> d = 1 \<or> d = 2 \<or> d = 3 \<or> d = 4 \<or> d = 5 \<or> d = 6 \<or> d = 7 \<or>
      d = 8 \<or> d = 9"
    by arith
  then show ?thesis
    by (elim disjE) (simp_all add: digit_char_def digits_def)
qed

lemma read_digits_append:
  "read_digits acc (s @ t) =
     (case read_digits acc s of None \<Rightarrow> None | Some v \<Rightarrow> read_digits v t)"
  by (induction s arbitrary: acc) simp_all

lemma read_digits_str_nat: "read_digits 0 (str_nat n) = Some n"
proof (induction n rule: str_nat.induct)
  case (1 n)
  show ?case
  proof (cases "n < 10")
    case True
    then show ?thesis
      by (simp add: str_nat_digit digit_char_digit)
  next
    case False
    have "n mod 10 < 10" by simp
    with False "1.IH" show ?thesis
      by (simp add: str_nat_more read_digits_append digit_char_digit)
  qed
qed

lemma str_nat_not_empty: "str_nat n \<noteq> []"
  by (cases "n < 10") (simp_all add: str_nat_digit str_nat_more)

lemma read_nat_str_nat: "read_nat (str_nat n) = Some n"
  by (simp add: read_nat_def str_nat_not_empty read_digits_str_nat)

lemma digit_chars:
  "digit_char 0 = CHR ''0''" "digit_char 1 = CHR ''1''" "digit_char 2 = CHR ''2''"
  "digit_char (Suc 0) = CHR ''1''" "digit_char (Suc (Suc 0)) = CHR ''2''"
  by (simp_all add: digit_char_def digits_def)

subsection \<open>The program on the example hosts\<close>

lemmas imghdr_defs =
  imghdr_what_def tests_def test_jpeg_def test_png_def test_gif_def test_tiff_def test_rgb_def
  test_pbm_def test_pgm_def test_ppm_def test_pnm_def test_rast_def test_xbm_def test_bmp_def
  test_webp_def test_exr_def startswith_def bytes_slice_def whitespace_def

lemmas host_defs =
  posix_host_def linux_host_def small_host_def readonly_host_def empty_folder_host_def

lemma what_a_png: "imghdr_what posix_host ''input/a.png'' = Inr (Some ''png'')"
  by (simp add: imghdr_defs posix_host_def png_file_def)

lemma what_b_jpg: "imghdr_what posix_host ''input/b.jpg'' = Inr (Some ''jpeg'')"
  by (simp add: imghdr_defs posix_host_def jpeg_file_def)

lemma what_notes_txt: "imghdr_what posix_host ''input/notes.txt'' = Inr None"
  by (simp add: imghdr_defs posix_host_def)

lemma what_empty_png: "imghdr_what posix_host ''input/empty.png'' = Inr None"
  by (simp add: imghdr_defs posix_host_def)

lemma imghdr_what_cong: "open_rb h = open_rb h' \<Longrightarrow> imghdr_what h p = imghdr_what h' p"
  by (simp add: imghdr_what_def)

lemma same_files:
  "open_rb linux_host = open_rb posix_host" "open_rb small_host = open_rb posix_host"
  "open_rb readonly_host = open_rb posix_host"
  by (simp_all add: host_defs)

lemma rebuild_a_png: "rebuild posix_host ''input/a.png'' = Inr clean_photo"
  by (simp add: rebuild_def posix_host_def photo_def clean_photo_def)

lemma twenty:
  "(20::nat) = Suc (Suc (Suc (Suc (Suc (Suc (Suc (Suc (Suc (Suc
     (Suc (Suc (Suc (Suc (Suc (Suc (Suc (Suc (Suc (Suc 0)))))))))))))))))))"
  by simp

lemma floor_times_0: "floor_times 0 n = 0"
  by (simp add: floor_times_def round53_def two53_def)

text \<open>A generator that returns 0.0 for ever gives the first letter twenty times.\<close>

lemma random_string_zero:
  assumes "rng w = (\<lambda>i. 0)"
  shows "random_string 20 w = (''aaaaaaaaaaaaaaaaaaaa'', w)"
proof -
  have "w\<lparr>rng := \<lambda>i. 0\<rparr> = w"
    using assms by simp
  then show ?thesis
    by (simp add: random_string_def random_random_def floor_times_0 twenty ascii_letters_def assms)
qed

lemma world0_rng: "rng world0 = (\<lambda>i. 0)"
  by (simp add: world0_def)

lemma posix_names:
  "os_name posix_host = ''posix''" "os_name linux_host = ''posix''"
  "os_name small_host = ''posix''" "os_name readonly_host = ''posix''"
  "os_name empty_folder_host = ''posix''"
  by (simp_all add: host_defs)

lemma posix_paths:
  assumes "os_name h = ''posix''"
  shows "os_path_basename h ''input/a.png'' = ''a.png''"
    and "os_path_basename h ''input/b.jpg'' = ''b.jpg''"
    and "os_path_basename h ''input/empty.png'' = ''empty.png''"
    and "os_path_join h ''output'' ''aaaaaaaaaaaaaaaaaaaa.png'' = ''output/aaaaaaaaaaaaaaaaaaaa.png''"
    and "os_path_join h ''output'' ''aaaaaaaaaaaaaaaaaaaa.jpeg'' = ''output/aaaaaaaaaaaaaaaaaaaa.jpeg''"
  using assms
  by (simp_all add: os_path_basename_def posixpath_basename_def os_path_join_def posixpath_join_def)

lemma posix_join_input:
  "os_path_join posix_host ''input'' ''a.png'' = ''input/a.png''"
  "os_path_join posix_host ''input'' ''notes.txt'' = ''input/notes.txt''"
  "os_path_join posix_host ''input'' ''sub'' = ''input/sub''"
  "os_path_join posix_host ''input'' ''b.jpg'' = ''input/b.jpg''"
  "os_path_join posix_host ''input'' ''empty.png'' = ''input/empty.png''"
  by (simp_all add: os_path_join_def posixpath_join_def posix_names)

lemma isfile_posix_host: "isfile posix_host p = (p \<noteq> ''input/sub'')"
  by (simp add: posix_host_def)

lemma collect_posix_host:
  "collect_image_files posix_host ''input'' ''output'' []
     [''a.png'', ''notes.txt'', ''sub'', ''b.jpg'', ''empty.png''] =
   [(''input/a.png'', ''output''), (''input/b.jpg'', ''output'')]"
  by (simp add: posix_join_input isfile_posix_host what_a_png what_b_jpg what_notes_txt
      what_empty_png)

lemma cleanup_posix_host: "cleanup posix_host image_type output_path = None"
  by (rule cleanup_swallows) (simp add: posix_host_def)

lemma run_a_png:
  assumes "rng w = (\<lambda>i. 0)"
  shows "remove_all_metadata posix_host (''input/a.png'', ''output'') w =
     (Inr (True, ''a.png'', None),
      w\<lparr>written := (written w)(''output/aaaaaaaaaaaaaaaaaaaa.png'' \<mapsto> clean_photo)\<rparr>)"
  using remove_all_metadata_paths(4) [OF what_a_png _ random_string_zero [OF assms] refl
      rebuild_a_png _ cleanup_posix_host, where output_folder = "''output''"]
  by (simp add: posix_paths posix_names) (simp add: posix_host_def)

lemma rebuild_b_jpg: "rebuild posix_host ''input/b.jpg'' = Inr clean_photo"
  by (simp add: rebuild_def posix_host_def photo_def clean_photo_def)

lemma run_b_jpg:
  assumes "rng w = (\<lambda>i. 0)"
  shows "remove_all_metadata posix_host (''input/b.jpg'', ''output'') w =
     (Inr (True, ''b.jpg'', None),
      w\<lparr>written := (written w)(''output/aaaaaaaaaaaaaaaaaaaa.jpeg'' \<mapsto> clean_photo)\<rparr>)"
  using remove_all_metadata_paths(4) [OF what_b_jpg _ random_string_zero [OF assms] refl
      rebuild_b_jpg _ cleanup_posix_host, where output_folder = "''output''"]
  by (simp add: posix_paths posix_names) (simp add: posix_host_def)

lemma random_choices_const:
  assumes "rng w = (\<lambda>i. x)"
  shows "random_choices population k w =
    (replicate k (population ! floor_times x (length population)), w)"
proof -
  have same: "w\<lparr>rng := \<lambda>i. x\<rparr> = w"
    using assms by simp
  show ?thesis
    by (induction k) (simp_all add: random_random_def assms same)
qed

lemma random_string_rounding:
  assumes "rng w = (\<lambda>i. 5665818886046753)"
  shows "random_string 20 w = (''NNNNNNNNNNNNNNNNNNNN'', w)"
proof -
  have len: "length (ascii_letters @ digits) = 62"
    by (simp add: ascii_letters_def digits_def)
  have letter: "(ascii_letters @ digits) ! 39 = CHR ''N''"
    by (simp add: ascii_letters_def)
  have "replicate 20 (CHR ''N'') = ''NNNNNNNNNNNNNNNNNNNN''"
    by (simp add: twenty)
  then show ?thesis
    unfolding random_string_def random_choices_const [OF assms] len rounding_example letter
    by simp
qed

lemma two_elements: "length xs = 2 \<Longrightarrow> xs = [xs ! 0, xs ! 1]"
  by (auto simp: numeral_2_eq_2 length_Suc_conv)

section \<open>The claims\<close>

subsection \<open>C1: every failure becomes a failed result\<close>

text \<open>
  C1, as the code has it. For every input tuple, \<open>remove_all_metadata\<close> returns one
  result, which carries the base name of the input path, and raises nothing. Every
  failure is reported as a failed result: an exception that leaves the \<open>try\<close> block
  gives the flag \<open>False\<close> and its \<open>str(e)\<close> as the message, and so does each
  source of one (classification, rebuilding the image, saving it, the clean-up); a file
  that is not classified gives the flag \<open>False\<close> and the classification message; and
  when nothing fails the flag is \<open>True\<close>. A failed result has no other message than
  these two. Nothing makes \<open>str(e)\<close> non-empty: it is whatever the exception prints as.
\<close>

theorem remove_all_metadata_reports_failure:
  "\<exists>ok error w'.
     remove_all_metadata host (input_path, output_folder) w =
       (Inr (ok, os_path_basename host input_path, error), w') \<and>
     (\<not> ok \<longrightarrow>
        error = Some ''Unsupported or invalid image file'' \<or>
        (\<exists>e. fst (remove_all_metadata_try host (input_path, output_folder) w) = Inl e \<and>
             error = Some (str_exc e))) \<and>
     (\<forall>e. fst (remove_all_metadata_try host (input_path, output_folder) w) = Inl e \<longrightarrow>
          \<not> ok \<and> error = Some (str_exc e)) \<and>
     (\<forall>e. imghdr_what host input_path = Inl e \<longrightarrow> \<not> ok \<and> error = Some (str_exc e)) \<and>
     (imghdr_what host input_path = Inr None \<or> imghdr_what host input_path = Inr (Some []) \<longrightarrow>
        \<not> ok \<and> error = Some ''Unsupported or invalid image file'') \<and>
     (\<forall>image_type img output_path.
        imghdr_what host input_path = Inr (Some image_type) \<and> image_type \<noteq> [] \<and>
        output_path =
          os_path_join host output_folder (fst (random_string 20 w) @ ''.'' @ image_type) \<longrightarrow>
        (\<forall>e. rebuild host input_path = Inl e \<longrightarrow> \<not> ok \<and> error = Some (str_exc e)) \<and>
        (\<forall>e. rebuild host input_path = Inr img \<and> save host img output_path = Some e \<longrightarrow>
             \<not> ok \<and> error = Some (str_exc e)) \<and>
        (\<forall>e. rebuild host input_path = Inr img \<and> save host img output_path = None \<and>
             cleanup host image_type output_path = Some e \<longrightarrow>
             \<not> ok \<and> error = Some (str_exc e)) \<and>
        (rebuild host input_path = Inr img \<and> save host img output_path = None \<and>
         cleanup host image_type output_path = None \<longrightarrow> ok \<and> error = None))"
proof -
  let ?run = "remove_all_metadata host (input_path, output_folder) w"
  let ?body = "remove_all_metadata_try host (input_path, output_folder) w"
  let ?name = "os_path_basename host input_path"
  obtain ok error w' where run: "?run = (Inr (ok, ?name, error), w')"
    using remove_all_metadata_returns [of host input_path output_folder w] by blast
  have raised: "\<not> ok \<and> error = Some (str_exc e)" if "fst ?body = Inl e" for e
    using that run by (cases ?body) (simp add: remove_all_metadata_def)
  have bad: "error = Some ''Unsupported or invalid image file'' \<or>
      (\<exists>e. fst ?body = Inl e \<and> error = Some (str_exc e))" if "\<not> ok"
  proof (cases ?body)
    case (Pair res w'')
    show ?thesis
    proof (cases res)
      case (Inl e)
      with Pair raised [of e] show ?thesis by simp
    next
      case (Inr r)
      with Pair run that remove_all_metadata_try_result [of host input_path output_folder w r w'']
      show ?thesis by (auto simp: remove_all_metadata_def)
    qed
  qed
  have what_raises: "\<not> ok \<and> error = Some (str_exc e)" if "imghdr_what host input_path = Inl e" for e
    using that by (intro raised) (simp add: remove_all_metadata_try_def)
  have unclassified: "\<not> ok \<and> error = Some ''Unsupported or invalid image file''"
    if "imghdr_what host input_path = Inr None \<or> imghdr_what host input_path = Inr (Some [])"
    using that run by (auto simp: remove_all_metadata_def remove_all_metadata_try_def)
  have classified:
    "(\<forall>e. rebuild host input_path = Inl e \<longrightarrow> \<not> ok \<and> error = Some (str_exc e)) \<and>
     (\<forall>e. rebuild host input_path = Inr img \<and> save host img output_path = Some e \<longrightarrow>
          \<not> ok \<and> error = Some (str_exc e)) \<and>
     (\<forall>e. rebuild host input_path = Inr img \<and> save host img output_path = None \<and>
          cleanup host image_type output_path = Some e \<longrightarrow>
          \<not> ok \<and> error = Some (str_exc e)) \<and>
     (rebuild host input_path = Inr img \<and> save host img output_path = None \<and>
      cleanup host image_type output_path = None \<longrightarrow> ok \<and> error = None)"
    if "imghdr_what host input_path = Inr (Some image_type) \<and> image_type \<noteq> [] \<and>
        output_path =
          os_path_join host output_folder (fst (random_string 20 w) @ ''.'' @ image_type)"
    for image_type img output_path
  proof -
    have rs: "random_string 20 w = (fst (random_string 20 w), snd (random_string 20 w))"
      by simp
    from that have what: "imghdr_what host input_path = Inr (Some image_type)"
      and ne: "image_type \<noteq> []"
      and op: "output_path =
          os_path_join host output_folder (fst (random_string 20 w) @ ''.'' @ image_type)"
      by simp_all
    note paths = remove_all_metadata_paths [OF what ne rs op]
    show ?thesis
      using paths(1) paths(2) [of img] paths(3) [of img] paths(4) [of img] run by auto
  qed
  show ?thesis
    using run bad raised what_raises unclassified classified
    by (intro exI [of _ ok] exI [of _ error] exI [of _ w']) blast
qed

text \<open>
  Three failures: the output folder cannot be written to and \<open>save\<close> raises
  PermissionError; the input file is gone and \<open>imghdr.what\<close> raises
  FileNotFoundError; the input is a text file.
\<close>

theorem remove_all_metadata_reports_failure_witness:
  "fst (remove_all_metadata readonly_host (''input/a.png'', ''output'') world0) =
     Inr (False, ''a.png'', Some ''[Errno 13] Permission denied'') \<and>
   fst (remove_all_metadata posix_host (''input/gone.png'', ''output'') world0) =
     Inr (False, ''gone.png'', Some ''[Errno 2] No such file or directory'') \<and>
   fst (remove_all_metadata posix_host (''input/notes.txt'', ''output'') world0) =
     Inr (False, ''notes.txt'', Some ''Unsupported or invalid image file'')"
proof -
  have names: "os_path_basename readonly_host ''input/a.png'' = ''a.png''"
    "os_path_basename posix_host ''input/gone.png'' = ''gone.png''"
    "os_path_basename posix_host ''input/notes.txt'' = ''notes.txt''"
    by (simp_all add: os_path_basename_def posixpath_basename_def posix_names)
  have "fst (remove_all_metadata readonly_host (''input/a.png'', ''output'') world0) =
     Inr (False, ''a.png'', Some ''[Errno 13] Permission denied'')"
  proof -
    have what: "imghdr_what readonly_host ''input/a.png'' = Inr (Some ''png'')"
      using imghdr_what_cong [OF same_files(3)] what_a_png by simp
    have re: "rebuild readonly_host ''input/a.png'' = Inr clean_photo"
      by (simp add: rebuild_def readonly_host_def posix_host_def photo_def clean_photo_def)
    have sv: "save readonly_host clean_photo p =
        Some (Exc PermissionError ''[Errno 13] Permission denied'')" for p
      by (simp add: readonly_host_def)
    from remove_all_metadata_reports_failure [of readonly_host "''input/a.png''" "''output''" world0]
    obtain ok error w' where
      run: "remove_all_metadata readonly_host (''input/a.png'', ''output'') world0 =
          (Inr (ok, os_path_basename readonly_host ''input/a.png'', error), w')"
      and classified: "\<forall>image_type img output_path.
        imghdr_what readonly_host ''input/a.png'' = Inr (Some image_type) \<and> image_type \<noteq> [] \<and>
        output_path =
          os_path_join readonly_host ''output''
            (fst (random_string 20 world0) @ ''.'' @ image_type) \<longrightarrow>
        (\<forall>e. rebuild readonly_host ''input/a.png'' = Inl e \<longrightarrow>
             \<not> ok \<and> error = Some (str_exc e)) \<and>
        (\<forall>e. rebuild readonly_host ''input/a.png'' = Inr img \<and>
             save readonly_host img output_path = Some e \<longrightarrow>
             \<not> ok \<and> error = Some (str_exc e)) \<and>
        (\<forall>e. rebuild readonly_host ''input/a.png'' = Inr img \<and>
             save readonly_host img output_path = None \<and>
             cleanup readonly_host image_type output_path = Some e \<longrightarrow>
             \<not> ok \<and> error = Some (str_exc e)) \<and>
        (rebuild readonly_host ''input/a.png'' = Inr img \<and>
         save readonly_host img output_path = None \<and>
         cleanup readonly_host image_type output_path = None \<longrightarrow> ok \<and> error = None)"
      by (elim exE conjE) (rule that, assumption+)
    from classified [rule_format, of "''png''" _ clean_photo, THEN conjunct2, THEN conjunct1,
        rule_format, of _ "Exc PermissionError ''[Errno 13] Permission denied''"] what re sv
    have "\<not> ok \<and> error = Some ''[Errno 13] Permission denied''"
      by simp
    with run names show ?thesis
      by simp
  qed
  moreover have "fst (remove_all_metadata posix_host (''input/gone.png'', ''output'') world0) =
     Inr (False, ''gone.png'', Some ''[Errno 2] No such file or directory'')"
  proof -
    have what: "imghdr_what posix_host ''input/gone.png'' =
        Inl (Exc FileNotFoundError ''[Errno 2] No such file or directory'')"
      by (simp add: imghdr_what_def posix_host_def)
    from remove_all_metadata_reports_failure [of posix_host "''input/gone.png''" "''output''" world0]
    obtain ok error w' where
      run: "remove_all_metadata posix_host (''input/gone.png'', ''output'') world0 =
          (Inr (ok, os_path_basename posix_host ''input/gone.png'', error), w')"
      and raises: "\<forall>e. imghdr_what posix_host ''input/gone.png'' = Inl e \<longrightarrow>
          \<not> ok \<and> error = Some (str_exc e)"
      by (elim exE conjE) (rule that, assumption+)
    from raises [rule_format, OF what] run names show ?thesis
      by simp
  qed
  moreover have "fst (remove_all_metadata posix_host (''input/notes.txt'', ''output'') world0) =
     Inr (False, ''notes.txt'', Some ''Unsupported or invalid image file'')"
  proof -
    from remove_all_metadata_reports_failure [of posix_host "''input/notes.txt''" "''output''" world0]
    obtain ok error w' where
      run: "remove_all_metadata posix_host (''input/notes.txt'', ''output'') world0 =
          (Inr (ok, os_path_basename posix_host ''input/notes.txt'', error), w')"
      and unclassified: "imghdr_what posix_host ''input/notes.txt'' = Inr None \<or>
          imghdr_what posix_host ''input/notes.txt'' = Inr (Some []) \<longrightarrow>
          \<not> ok \<and> error = Some ''Unsupported or invalid image file''"
      by (elim exE conjE) (rule that, assumption+)
    from unclassified what_notes_txt run names show ?thesis
      by simp
  qed
  ultimately show ?thesis
    by simp
qed

text \<open>
  C1 as it is written asks for a non-empty message. On the host with too little memory,
  \<open>list(img.getdata())\<close> raises \<open>MemoryError()\<close>, whose \<open>str\<close> is the empty string,
  and the failed result carries that empty string.
\<close>

theorem memory_error_gives_empty_message:
  "fst (remove_all_metadata small_host (''input/a.png'', ''output'') world0) =
     Inr (False, ''a.png'', Some [])"
proof -
  have what: "imghdr_what small_host ''input/a.png'' = Inr (Some ''png'')"
    using imghdr_what_cong [OF same_files(2)] what_a_png by simp
  have "rebuild small_host ''input/a.png'' = Inl (Exc MemoryError [])"
    by (simp add: rebuild_def small_host_def posix_host_def)
  from remove_all_metadata_paths(1) [OF what _ random_string_zero [OF world0_rng] refl this]
  show ?thesis
    by (simp add: posix_paths posix_names)
qed

subsection \<open>C2: an empty input folder\<close>

text \<open>
  C2 says that a folder without image files gives a summary of three zeros and no error.
  The code computes \<open>min(cpu_count(), 0) = 0\<close> and asks for a pool of no processes:
  the constructor raises ValueError, nothing is printed and the exception leaves
  \<open>process_folder\<close>.
\<close>

theorem empty_folder_raises_ValueError:
  "process_folder empty_folder_host ''input'' ''output'' world0 =
     (Inl (Exc ValueError ''Number of processes must be at least 1''), world0)"
  by (simp add: process_folder_def empty_folder_host_def posix_host_def Pool_def)

subsection \<open>C3: the clean-up steps and the result\<close>

text \<open>
  C3 says that no failure of a clean-up step turns a success into a failure, also when
  the \<open>xattr\<close> program is missing. The handlers around \<open>piexif.remove\<close> and
  \<open>os.utime\<close> catch every exception, but the one around \<open>subprocess.run\<close> catches
  CalledProcessError only (see \<open>cleanup_escapes\<close> and \<open>cleanup_swallows\<close>). On the host
  without \<open>xattr\<close> the image is rebuilt and saved, \<open>subprocess.run\<close> raises
  FileNotFoundError, and the task is reported as failed although its output file exists.
\<close>

theorem missing_xattr_fails_the_task:
  "rebuild linux_host ''input/a.png'' = Inr clean_photo \<and>
   save linux_host clean_photo ''output/aaaaaaaaaaaaaaaaaaaa.png'' = None \<and>
   xattr_c linux_host ''output/aaaaaaaaaaaaaaaaaaaa.png'' = Some xattr_not_found \<and>
   fst (remove_all_metadata linux_host (''input/a.png'', ''output'') world0) =
     Inr (False, ''a.png'', Some (str_exc xattr_not_found)) \<and>
   written (snd (remove_all_metadata linux_host (''input/a.png'', ''output'') world0))
     ''output/aaaaaaaaaaaaaaaaaaaa.png'' = Some clean_photo"
proof -
  have what: "imghdr_what linux_host ''input/a.png'' = Inr (Some ''png'')"
    using imghdr_what_cong [OF same_files(1)] what_a_png by simp
  have re: "rebuild linux_host ''input/a.png'' = Inr clean_photo"
    by (simp add: rebuild_def linux_host_def posix_host_def photo_def clean_photo_def)
  have sv: "save linux_host clean_photo p = None" for p
    by (simp add: linux_host_def posix_host_def)
  have xa: "xattr_c linux_host p = Some xattr_not_found" for p
    by (simp add: linux_host_def)
  have cl: "cleanup linux_host ''png'' p = Some xattr_not_found" for p
    by (simp add: cleanup_def try_pass_def linux_host_def posix_host_def xattr_not_found_def)
  from remove_all_metadata_paths(3)
    [OF what _ random_string_zero [OF world0_rng] refl re sv cl]
  show ?thesis
    using re sv xa by (simp add: posix_paths posix_names)
qed

subsection \<open>C4: a file that is not an image\<close>

text \<open>
  C4. When the file can be read and none of the tests recognises its first 32 bytes, as
  is the case for a file of no bytes, \<open>remove_all_metadata\<close> returns the failed
  result with the base name of the input path and the message
  \<open>Unsupported or invalid image file\<close>, and the world is as it was: no file has been
  written and no random name drawn.
\<close>

theorem unclassified_file_fails:
  assumes "open_rb host input_path = Inr content"
    and "content = [] \<or> first_result tests (take 32 content) = None"
  shows "remove_all_metadata host (input_path, output_folder) w =
           (Inr (False, os_path_basename host input_path,
                 Some ''Unsupported or invalid image file''), w)"
proof -
  have "first_result tests (take 32 content) = None"
    using assms(2) first_result_empty by auto
  then have "imghdr_what host input_path = Inr None"
    using assms(1) by (simp add: imghdr_what_def)
  then show ?thesis
    by (simp add: remove_all_metadata_def remove_all_metadata_try_def)
qed

theorem unclassified_file_fails_witness:
  "open_rb posix_host ''input/empty.png'' = Inr [] \<and>
   remove_all_metadata posix_host (''input/empty.png'', ''output'') world0 =
     (Inr (False, ''empty.png'', Some ''Unsupported or invalid image file''), world0)"
proof -
  have op: "open_rb posix_host ''input/empty.png'' = Inr []"
    by (simp add: posix_host_def)
  from unclassified_file_fails [OF op, of "''output''" world0] op show ?thesis
    by (simp add: posix_paths posix_names)
qed

subsection \<open>C5: the name of the output file\<close>

text \<open>
  C5. For every classified input the name generated is made of 20 characters, each an
  ASCII letter or a digit, and the only file that \<open>remove_all_metadata\<close> may write is
  the one in the output folder under that name, a dot and the detected type: it is
  written when the image is rebuilt and saved, and nothing is written otherwise. The
  world \<open>w\<close> is arbitrary: whether a file of that name is there already plays no
  part, it is written over.
\<close>

theorem output_filename_shape:
  assumes "imghdr_what host input_path = Inr (Some image_type)"
    and "image_type \<noteq> []"
  shows "\<exists>name. name = fst (random_string 20 w) \<and> length name = 20 \<and>
           set name \<subseteq> set (ascii_letters @ digits) \<and>
           written (snd (remove_all_metadata host (input_path, output_folder) w)) =
             (case rebuild host input_path of
                Inl e \<Rightarrow> written w
              | Inr img \<Rightarrow>
                  (case save host img
                          (os_path_join host output_folder (name @ ''.'' @ image_type)) of
                     Some e \<Rightarrow> written w
                   | None \<Rightarrow>
                       (written w)
                         (os_path_join host output_folder (name @ ''.'' @ image_type) \<mapsto> img)))"
proof -
  have "written (snd (random_string 20 w)) = written w"
    by (rule random_string_keeps)
  then have "written (snd (remove_all_metadata host (input_path, output_folder) w)) =
      (case rebuild host input_path of
         Inl e \<Rightarrow> written w
       | Inr img \<Rightarrow>
           (case save host img
                   (os_path_join host output_folder
                      (fst (random_string 20 w) @ ''.'' @ image_type)) of
              Some e \<Rightarrow> written w
            | None \<Rightarrow>
                (written w)
                  (os_path_join host output_folder
                     (fst (random_string 20 w) @ ''.'' @ image_type) \<mapsto> img)))"
    using assms
    by (simp add: remove_all_metadata_def remove_all_metadata_try_def Let_def case_prod_beta
        split: sum.splits option.splits)
  with random_string_length [of 20 w] random_string_chars [of 20 w] show ?thesis
    by blast
qed

text \<open>
  In \<open>taken_world\<close> the name drawn is twenty times N (index 39 of the alphabet, by the
  rounding of the product) and it is taken by another image, which is replaced.
\<close>

theorem output_filename_shape_witness:
  "written taken_world ''output/NNNNNNNNNNNNNNNNNNNN.png'' = Some photo \<and>
   written (snd (remove_all_metadata posix_host (''input/a.png'', ''output'') taken_world)) =
     (written taken_world)(''output/NNNNNNNNNNNNNNNNNNNN.png'' \<mapsto> clean_photo)"
proof -
  have name: "fst (random_string 20 taken_world) = ''NNNNNNNNNNNNNNNNNNNN''"
    by (simp add: random_string_rounding taken_world_def)
  have sv: "save posix_host clean_photo p = None" for p
    by (simp add: posix_host_def)
  have path: "os_path_join posix_host ''output'' ''NNNNNNNNNNNNNNNNNNNN.png'' =
      ''output/NNNNNNNNNNNNNNNNNNNN.png''"
    by (simp add: os_path_join_def posixpath_join_def posix_names)
  have ne: "''png'' \<noteq> []"
    by simp
  from output_filename_shape [OF what_a_png ne, where output_folder = "''output''" and w = taken_world]
  have "written (snd (remove_all_metadata posix_host (''input/a.png'', ''output'') taken_world)) =
     (written taken_world)(''output/NNNNNNNNNNNNNNNNNNNN.png'' \<mapsto> clean_photo)"
    unfolding name rebuild_a_png by (simp add: sv path)
  then show ?thesis
    by (simp add: taken_world_def)
qed

subsection \<open>C6: what the enumeration skips\<close>

text \<open>
  C6. Take any entries of the input folder that are not regular files, or for which
  \<open>imghdr.what\<close> raises or returns \<open>None\<close>. None of them is in a task of the list
  that the enumeration builds, and \<open>process_folder\<close> does exactly what it does on a
  folder without them: the same result, the same files written, the same lines printed.
  So they have no output and no line in the summary.
\<close>

theorem skipped_entry_makes_no_task:
  assumes "listdir host input_folder = Inr entries"
    and "\<forall>filename \<in> set skipped.
           \<not> isfile host (os_path_join host input_folder filename) \<or>
           (\<exists>e. imghdr_what host (os_path_join host input_folder filename) = Inl e) \<or>
           imghdr_what host (os_path_join host input_folder filename) = Inr None"
  shows "(\<forall>filename \<in> set skipped.
            (os_path_join host input_folder filename, output_folder) \<notin>
              set (collect_image_files host input_folder output_folder [] entries)) \<and>
         process_folder host input_folder output_folder w =
           process_folder (host\<lparr>listdir := (\<lambda>p. Inr (filter (\<lambda>f. f \<notin> set skipped) entries))\<rparr>)
             input_folder output_folder w"
proof -
  have no_task: "\<forall>filename \<in> set skipped.
      (os_path_join host input_folder filename, output_folder) \<notin>
        set (collect_image_files host input_folder output_folder [] entries)"
    using assms(2) unfolding collect_image_files_filter by auto
  have same: "collect_image_files host input_folder output_folder []
        (filter (\<lambda>f. f \<notin> set skipped) entries) =
      collect_image_files host input_folder output_folder [] entries"
    unfolding collect_image_files_filter filter_filter
    using assms(2) by (auto intro!: arg_cong [where f = "map _"] filter_cong)
  have "process_folder (host\<lparr>listdir := (\<lambda>p. Inr (filter (\<lambda>f. f \<notin> set skipped) entries))\<rparr>)
      input_folder output_folder w = process_folder host input_folder output_folder w"
    using assms(1)
    by (simp add: process_folder_def collect_image_files_listdir pool_map_listdir same Let_def
        cong: sum.case_cong option.case_cong prod.case_cong)
  with no_task show ?thesis
    by simp
qed

theorem skipped_entry_makes_no_task_witness:
  "(''input/notes.txt'', ''output'') \<notin>
     set (collect_image_files posix_host ''input'' ''output'' []
            [''a.png'', ''notes.txt'', ''sub'', ''b.jpg'', ''empty.png'']) \<and>
   (''input/sub'', ''output'') \<notin>
     set (collect_image_files posix_host ''input'' ''output'' []
            [''a.png'', ''notes.txt'', ''sub'', ''b.jpg'', ''empty.png'']) \<and>
   (''input/empty.png'', ''output'') \<notin>
     set (collect_image_files posix_host ''input'' ''output'' []
            [''a.png'', ''notes.txt'', ''sub'', ''b.jpg'', ''empty.png'']) \<and>
   process_folder posix_host ''input'' ''output'' world0 =
     process_folder (posix_host\<lparr>listdir := (\<lambda>p. Inr [''a.png'', ''b.jpg''])\<rparr>)
       ''input'' ''output'' world0"
proof -
  have l: "listdir posix_host ''input'' =
      Inr [''a.png'', ''notes.txt'', ''sub'', ''b.jpg'', ''empty.png'']"
    by (simp add: posix_host_def)
  have skipped: "\<forall>filename \<in> set [''notes.txt'', ''sub'', ''empty.png''].
      \<not> isfile posix_host (os_path_join posix_host ''input'' filename) \<or>
      (\<exists>e. imghdr_what posix_host (os_path_join posix_host ''input'' filename) = Inl e) \<or>
      imghdr_what posix_host (os_path_join posix_host ''input'' filename) = Inr None"
    by (simp add: posix_join_input isfile_posix_host what_notes_txt what_empty_png)
  have kept: "filter (\<lambda>f. f \<notin> set [''notes.txt'', ''sub'', ''empty.png''])
      [''a.png'', ''notes.txt'', ''sub'', ''b.jpg'', ''empty.png''] = [''a.png'', ''b.jpg'']"
    by simp
  from skipped_entry_makes_no_task [OF l skipped, of "''output''" world0] show ?thesis
    unfolding kept by (simp add: posix_join_input)
qed

subsection \<open>C7: the number of workers\<close>

text \<open>
  C7. When the output folder can be made, the input folder listed and the number of
  CPUs is known, the number of worker processes that \<open>process_folder\<close> starts is the
  minimum of the number of CPUs and the number of tasks, and so at most the number of
  tasks.
\<close>

theorem worker_count_is_min:
  assumes "makedirs host output_folder = None"
    and "listdir host input_folder = Inr entries"
    and "cpu_count host = Inr cpus"
  shows "workers (snd (process_folder host input_folder output_folder w)) =
           workers w +
           min cpus (length (collect_image_files host input_folder output_folder [] entries)) \<and>
         workers (snd (process_folder host input_folder output_folder w)) - workers w
           \<le> length (collect_image_files host input_folder output_folder [] entries)"
proof -
  define image_files where
    "image_files = collect_image_files host input_folder output_folder [] entries"
  define n where "n = min cpus (length image_files)"
  have "workers (snd (process_folder host input_folder output_folder w)) = workers w + n"
  proof (cases "n < 1")
    case True
    then show ?thesis
      using assms by (simp add: process_folder_def Pool_def Let_def image_files_def n_def)
  next
    case False
    obtain results w2 where
      "pool_map host image_files (w\<lparr>workers := workers w + n\<rparr>) = (Inr results, w2)"
      and "workers w2 = workers w + n"
      using pool_map_results [of host image_files "w\<lparr>workers := workers w + n\<rparr>"] by auto
    with False show ?thesis
      using assms
      by (simp add: process_folder_def Pool_def Let_def image_files_def n_def print_results_keeps)
  qed
  then show ?thesis
    by (simp add: image_files_def n_def)
qed

theorem worker_count_is_min_witness:
  "makedirs posix_host ''output'' = None \<and> cpu_count posix_host = Inr 4 \<and>
   workers (snd (process_folder posix_host ''input'' ''output'' world0)) = 2"
proof -
  have m: "makedirs posix_host ''output'' = None"
    and l: "listdir posix_host ''input'' =
              Inr [''a.png'', ''notes.txt'', ''sub'', ''b.jpg'', ''empty.png'']"
    and c: "cpu_count posix_host = Inr 4"
    by (simp_all add: posix_host_def)
  from worker_count_is_min [OF m l c, of world0]
  have "workers (snd (process_folder posix_host ''input'' ''output'' world0)) = 2"
    unfolding collect_posix_host by (simp add: world0_def)
  with m c show ?thesis
    by simp
qed

subsection \<open>C8: the result of a success\<close>

text \<open>
  C8. A result of \<open>remove_all_metadata\<close> whose first component is true is the triple
  of \<open>True\<close>, the base name of the input path and \<open>None\<close>.
\<close>

theorem success_result_shape:
  assumes "remove_all_metadata host (input_path, output_folder) w = (Inr r, w')"
    and "fst r"
  shows "r = (True, os_path_basename host input_path, None)"
proof (cases "remove_all_metadata_try host (input_path, output_folder) w")
  case (Pair res w'')
  show ?thesis
  proof (cases res)
    case (Inl e)
    with Pair assms show ?thesis by (auto simp: remove_all_metadata_def)
  next
    case (Inr r')
    with Pair assms remove_all_metadata_try_result [of host input_path output_folder w r' w'']
    show ?thesis by (auto simp: remove_all_metadata_def)
  qed
qed

theorem success_result_shape_witness:
  "fst (remove_all_metadata posix_host (''input/a.png'', ''output'') world0) =
     Inr (True, ''a.png'', None)"
proof -
  have "os_path_basename posix_host ''input/a.png'' = ''a.png''"
    by (simp add: posix_paths posix_names)
  with success_result_shape [OF run_a_png [OF world0_rng]] run_a_png [OF world0_rng]
  show ?thesis
    by simp
qed

subsection \<open>C9: one result for each task\<close>

text \<open>
  C9. When the list of tasks is not empty (and the folders can be made and listed, and
  there is at least one CPU), there is one result for each task, in the order of the
  tasks: result \<open>i\<close> is what \<open>remove_all_metadata\<close> returned for task \<open>i\<close>, run
  once in the world that the tasks before it left (\<open>ws\<close> is the sequence of these
  worlds). \<open>process_folder\<close> then returns, and the second line it prints shows the
  number of tasks as the total, in decimal.
\<close>

theorem one_result_per_task_in_order:
  assumes "makedirs host output_folder = None"
    and "listdir host input_folder = Inr entries"
    and "cpu_count host = Inr cpus"
    and "0 < cpus"
    and "image_files = collect_image_files host input_folder output_folder [] entries"
    and "image_files \<noteq> []"
  shows "\<exists>results ws.
           length results = length image_files \<and> length ws = Suc (length image_files) \<and>
           ws ! 0 = w\<lparr>workers := workers w + min cpus (length image_files)\<rparr> \<and>
           (\<forall>i < length image_files.
              remove_all_metadata host (image_files ! i) (ws ! i) =
                (Inr (results ! i), ws ! Suc i)) \<and>
           pool_map host image_files (ws ! 0) = (Inr results, last ws) \<and>
           map (\<lambda>r. fst (snd r)) results =
             map (\<lambda>t. os_path_basename host (fst t)) image_files \<and>
           process_folder host input_folder output_folder w =
             (Inr (), print_results results (last ws)) \<and>
           stdout (print_results results (last ws)) ! Suc (length (stdout w)) =
             ''Total images processed: '' @ str_nat (length image_files) \<and>
           read_nat (str_nat (length image_files)) = Some (length image_files)"
proof -
  define n where "n = min cpus (length image_files)"
  have n: "\<not> n < 1"
    using assms(4,6) by (cases image_files) (simp_all add: n_def)
  obtain results ws where
    run: "pool_map host image_files (w\<lparr>workers := workers w + n\<rparr>) = (Inr results, last ws)"
    and len: "length results = length image_files" "length ws = Suc (length image_files)"
    and first: "ws ! 0 = w\<lparr>workers := workers w + n\<rparr>"
    and steps: "\<forall>i < length image_files.
        remove_all_metadata host (image_files ! i) (ws ! i) = (Inr (results ! i), ws ! Suc i)"
    using pool_map_trace [of host image_files "w\<lparr>workers := workers w + n\<rparr>"] by blast
  obtain results' w2 where
    run': "pool_map host image_files (w\<lparr>workers := workers w + n\<rparr>) = (Inr results', w2)"
    and names': "map (\<lambda>r. fst (snd r)) results' =
                  map (\<lambda>t. os_path_basename host (fst t)) image_files"
    and out': "stdout w2 = stdout w"
    using pool_map_results [of host image_files "w\<lparr>workers := workers w + n\<rparr>"] by auto
  have names: "map (\<lambda>r. fst (snd r)) results =
      map (\<lambda>t. os_path_basename host (fst t)) image_files"
    and out: "stdout (last ws) = stdout w"
    using run run' names' out' by simp_all
  have pf: "process_folder host input_folder output_folder w =
      (Inr (), print_results results (last ws))"
    using assms(1-3) assms(5) [symmetric] n run
    by (simp add: process_folder_def Pool_def Let_def n_def)
  have total: "stdout (print_results results (last ws)) ! Suc (length (stdout w)) =
      ''Total images processed: '' @ str_nat (length image_files)"
    by (simp add: print_results_stdout out len nth_append)
  show ?thesis
    using len first steps run names pf total read_nat_str_nat [of "length image_files"]
    unfolding n_def [symmetric]
    by (intro exI [of _ results] exI [of _ ws]) simp
qed

theorem one_result_per_task_in_order_witness:
  "\<exists>results w2.
     process_folder posix_host ''input'' ''output'' world0 = (Inr (), print_results results w2) \<and>
     results = [(True, ''a.png'', None), (True, ''b.jpg'', None)] \<and>
     stdout (print_results results w2) ! 1 = ''Total images processed: 2''"
proof -
  let ?tasks = "[(''input/a.png'', ''output''), (''input/b.jpg'', ''output'')]"
  have m: "makedirs posix_host ''output'' = None"
    and l: "listdir posix_host ''input'' =
              Inr [''a.png'', ''notes.txt'', ''sub'', ''b.jpg'', ''empty.png'']"
    and c: "cpu_count posix_host = Inr 4"
    by (simp_all add: posix_host_def)
  have ne: "?tasks \<noteq> []"
    by simp
  from one_result_per_task_in_order [OF m l c _ collect_posix_host [symmetric] ne, of world0]
  obtain results ws where
    len: "length results = length ?tasks"
    and first: "ws ! 0 = world0\<lparr>workers := workers world0 + min 4 (length ?tasks)\<rparr>"
    and steps: "\<forall>i < length ?tasks.
        remove_all_metadata posix_host (?tasks ! i) (ws ! i) = (Inr (results ! i), ws ! Suc i)"
    and run: "process_folder posix_host ''input'' ''output'' world0 =
        (Inr (), print_results results (last ws))"
    and total: "stdout (print_results results (last ws)) ! Suc (length (stdout world0)) =
        ''Total images processed: '' @ str_nat (length ?tasks)"
    by auto
  have rng0: "rng (ws ! 0) = (\<lambda>i. 0)"
    using first by (simp add: world0_def)
  from steps [rule_format, of 0]
  have "remove_all_metadata posix_host (''input/a.png'', ''output'') (ws ! 0) =
      (Inr (results ! 0), ws ! 1)"
    by simp
  with run_a_png [OF rng0] have r0: "results ! 0 = (True, ''a.png'', None)"
    and w1: "ws ! 1 =
      (ws ! 0)\<lparr>written := (written (ws ! 0))(''output/aaaaaaaaaaaaaaaaaaaa.png'' \<mapsto> clean_photo)\<rparr>"
    by simp_all
  have rng1: "rng (ws ! 1) = (\<lambda>i. 0)"
    using w1 rng0 by simp
  from steps [rule_format, of 1]
  have "remove_all_metadata posix_host (''input/b.jpg'', ''output'') (ws ! 1) =
      (Inr (results ! 1), ws ! Suc 1)"
    by simp
  with run_b_jpg [OF rng1] have r1: "results ! 1 = (True, ''b.jpg'', None)"
    by simp
  have "length results = 2"
    using len by simp
  from two_elements [OF this] r0 r1
  have results: "results = [(True, ''a.png'', None), (True, ''b.jpg'', None)]"
    by simp
  have "stdout (print_results results (last ws)) ! 1 = ''Total images processed: 2''"
    using total by (simp add: world0_def str_nat_digit digit_chars)
  with run results show ?thesis
    by (intro exI [of _ results] exI [of _ "last ws"]) simp
qed

subsection \<open>C10: the counts of the summary\<close>

text \<open>
  C10. The successful and the failed results together are the results, each once, the
  successful ones have the flag and the failed ones do not, so the two counts add up to
  the total. The three numbers printed, read as decimal numbers, are the number of
  results, of those with the flag and of those without; and when a result failed, one
  line is printed for each failed result, in their order, with its file name and its
  error.
\<close>

theorem summary_counts_add_up:
  "mset (successful results) + mset (failed results) = mset results \<and>
   (\<forall>r \<in> set (successful results). fst r) \<and> (\<forall>r \<in> set (failed results). \<not> fst r) \<and>
   length (successful results) + length (failed results) = length results \<and>
   (\<exists>total succeeded failures.
      stdout (print_results results w) =
        stdout w @
        [CHR 0x0A # ''Processing Summary:'',
         ''Total images processed: '' @ total,
         ''Successful: '' @ succeeded,
         ''Failed: '' @ failures] @
        (if filter (\<lambda>r. \<not> fst r) results = [] then []
         else (CHR 0x0A # ''Failed Files:'') #
              map (\<lambda>(_, filename, error).
                     ''- '' @ filename @ '': '' @
                     (case error of None \<Rightarrow> ''None'' | Some detail \<Rightarrow> detail))
                (filter (\<lambda>r. \<not> fst r) results)) \<and>
      read_nat total = Some (length results) \<and>
      read_nat succeeded = Some (length (filter (\<lambda>r. fst r) results)) \<and>
      read_nat failures = Some (length (filter (\<lambda>r. \<not> fst r) results)))"
proof -
  have "mset (successful results) + mset (failed results) = mset results"
    by (simp add: successful_def failed_def)
  moreover have "length (successful results) + length (failed results) = length results"
    by (simp add: successful_def failed_def sum_length_filter_compl)
  moreover have "(\<forall>r \<in> set (successful results). fst r) \<and> (\<forall>r \<in> set (failed results). \<not> fst r)"
    by (simp add: successful_def failed_def)
  moreover have "stdout (print_results results w) =
        stdout w @
        [CHR 0x0A # ''Processing Summary:'',
         ''Total images processed: '' @ str_nat (length results),
         ''Successful: '' @ str_nat (length (filter (\<lambda>r. fst r) results)),
         ''Failed: '' @ str_nat (length (filter (\<lambda>r. \<not> fst r) results))] @
        (if filter (\<lambda>r. \<not> fst r) results = [] then []
         else (CHR 0x0A # ''Failed Files:'') #
              map (\<lambda>(_, filename, error).
                     ''- '' @ filename @ '': '' @
                     (case error of None \<Rightarrow> ''None'' | Some detail \<Rightarrow> detail))
                (filter (\<lambda>r. \<not> fst r) results))"
    unfolding print_results_stdout
    by (simp add: successful_def failed_def str_opt_def)
  ultimately show ?thesis
    using read_nat_str_nat by blast
qed

theorem summary_counts_add_up_witness:
  "stdout (print_results example_results world0) =
     [CHR 0x0A # ''Processing Summary:'', ''Total images processed: 12'', ''Successful: 11'',
      ''Failed: 1'', CHR 0x0A # ''Failed Files:'', ''- big.png: cannot identify image file''] \<and>
   read_nat ''12'' = Some (length example_results) \<and>
   read_nat ''11'' = Some (length (successful example_results)) \<and>
   read_nat ''1'' = Some (length (failed example_results))"
proof -
  have fs: "filter (\<lambda>r. \<not> fst r) example_results =
      [(False, ''big.png'', Some ''cannot identify image file'')]"
    and ss: "length (filter (\<lambda>r. fst r) example_results) = 11"
    and n: "length example_results = 12"
    by (simp_all add: example_results_def)
  have printed: "stdout (print_results example_results world0) =
     [CHR 0x0A # ''Processing Summary:'', ''Total images processed: 12'', ''Successful: 11'',
      ''Failed: 1'', CHR 0x0A # ''Failed Files:'', ''- big.png: cannot identify image file'']"
    unfolding print_results_stdout successful_def failed_def fs ss n
    by (simp add: str_nat_more str_nat_digit digit_chars str_opt_def world0_def)
  from summary_counts_add_up [of example_results world0]
  obtain total succeeded failures where
    lines: "stdout (print_results example_results world0) =
        stdout world0 @
        [CHR 0x0A # ''Processing Summary:'',
         ''Total images processed: '' @ total,
         ''Successful: '' @ succeeded,
         ''Failed: '' @ failures] @
        (if filter (\<lambda>r. \<not> fst r) example_results = [] then []
         else (CHR 0x0A # ''Failed Files:'') #
              map (\<lambda>(_, filename, error).
                     ''- '' @ filename @ '': '' @
                     (case error of None \<Rightarrow> ''None'' | Some detail \<Rightarrow> detail))
                (filter (\<lambda>r. \<not> fst r) example_results))"
    and reads: "read_nat total = Some (length example_results)"
      "read_nat succeeded = Some (length (filter (\<lambda>r. fst r) example_results))"
      "read_nat failures = Some (length (filter (\<lambda>r. \<not> fst r) example_results))"
    by blast
  from lines printed have "total = ''12''" "succeeded = ''11''" "failures = ''1''"
    unfolding fs by (simp_all add: world0_def)
  with reads printed show ?thesis
    by (simp add: successful_def failed_def)
qed

end
